theory Spec2Isabelle
  imports Complex_Main "HOL-Library.AList" "HOL-Library.Sublist"
begin

section \<open>Data model of \<open>bot.py\<close>\<close>

text \<open>
  Python floats are modelled by the reals (rounding, overflow and underflow are not
  modelled); the special value NaN is written out where the source tests for it.
  A Python \<open>dict\<close> keeps its keys in insertion order: it is an association list whose
  keys are pairwise distinct, read with \<open>map_of\<close>, written with \<open>AList.update\<close>
  (an existing key keeps its place, a new key goes to the end) and \<open>AList.delete\<close>.
  The strings \<open>"Buy"\<close> and \<open>"Sell"\<close> are the only sides the bot ever writes.
\<close>

datatype side = Buy | Sell

type_synonym 'v dict = "(string \<times> 'v) list"

record position =
  pos_side :: side
  pos_size :: real
  pos_entry :: real

record target =
  tgt_side :: side
  tgt_value :: real

record config =
  CAPITAL :: real
  N_SHORTS :: int
  LOOKBACK :: int
  PAPER_TRADE :: bool

text \<open>The log lines that carry a decision of the bot, with the values they print.\<close>

datatype event =
    CLOSE string real
  | HOLD side string real real
  | REVERSE string real
  | OPEN side string real real real
  | WARN_only_found nat int
  | REBALANCE_complete

record order =
  ord_symbol :: string
  ord_side :: side
  ord_qty :: real
  ord_reduce_only :: bool

record bot =
  paper_pnl :: real
  paper_positions :: "position dict"
  log_lines :: "event list"
  orders :: "order list"

text \<open>\<open>HighVolShortBot.__init__\<close>: no position, no realized PnL.\<close>

definition init_bot :: bot where
  "init_bot = \<lparr>paper_pnl = 0, paper_positions = [], log_lines = [], orders = []\<rparr>"

record live_position =
  lp_symbol :: string
  lp_side :: side
  lp_size :: real
  lp_value :: real

text \<open>
  The exchange, as the bot sees it during one cycle: the symbols of
  \<open>get_usdt_perp_symbols\<close> (empty on failure), the closes of \<open>get_klines\<close> in ascending
  time (empty on failure), the mark price of \<open>get_current_price\<close> (0 on failure), the
  answer of \<open>get_positions\<close> (\<open>None\<close> when the call raises), whether \<open>set_leverage\<close>
  succeeds, and \<open>minOrderQty\<close> and \<open>qtyStep\<close> of \<open>get_instruments_info\<close> (\<open>None\<close> when
  the call raises).
\<close>

record gateway =
  get_usdt_perp_symbols :: "string list"
  get_klines :: "string \<Rightarrow> real list"
  get_current_price :: "string \<Rightarrow> real"
  get_positions :: "live_position list option"
  set_leverage :: "string \<Rightarrow> bool"
  lot_size_filter :: "string \<Rightarrow> (real \<times> real) option"

datatype error = ZeroDivisionError | OverflowError

section \<open>Reconciliation in paper mode: \<open>execute_paper_trade\<close>\<close>

text \<open>
  Body of the first loop, for one key of the snapshot \<open>list(self.paper_positions.keys())\<close>.
  The key was read from the dict itself, so the lookup \<open>self.paper_positions[symbol]\<close>
  finds it; the \<open>del\<close> stands outside the test of the price.
\<close>

definition close_symbol :: "target dict \<Rightarrow> (string \<Rightarrow> real) \<Rightarrow> bot \<Rightarrow> string \<Rightarrow> bot" where
  "close_symbol targets price b symbol =
     (if symbol \<notin> set (map fst targets) then
        (case map_of (paper_positions b) symbol of
           None \<Rightarrow> b
         | Some pos \<Rightarrow>
             let current_price = price symbol;
                 b1 = (if current_price > 0 then
                         let pnl = (if pos_side pos = Sell
                                    then (pos_entry pos - current_price) * pos_size pos
                                    else (current_price - pos_entry pos) * pos_size pos)
                         in b\<lparr>paper_pnl := paper_pnl b + pnl,
                               log_lines := log_lines b @ [CLOSE symbol pnl]\<rparr>
                       else b)
             in b1\<lparr>paper_positions := AList.delete symbol (paper_positions b1)\<rparr>)
      else b)"

text \<open>Body of the second loop, for one item of \<open>targets.items()\<close>.\<close>

definition open_symbol :: "(string \<Rightarrow> real) \<Rightarrow> bot \<Rightarrow> string \<times> target \<Rightarrow> bot" where
  "open_symbol price b item =
     (let symbol = fst item; target = snd item;
          current_price = price symbol
      in if current_price \<le> 0 then b
         else
           let target_size = tgt_value target / current_price;
               new_pos = \<lparr>pos_side = tgt_side target, pos_size = target_size,
                          pos_entry = current_price\<rparr>;
               opened = OPEN (tgt_side target) symbol target_size current_price (tgt_value target)
           in case map_of (paper_positions b) symbol of
                Some pos \<Rightarrow>
                  if pos_side pos = tgt_side target
                  then b\<lparr>log_lines := log_lines b
                           @ [HOLD (tgt_side target) symbol (pos_size pos) (pos_entry pos)]\<rparr>
                  else
                    let pnl = (if pos_side pos = Sell
                               then (pos_entry pos - current_price) * pos_size pos
                               else (current_price - pos_entry pos) * pos_size pos)
                    in b\<lparr>paper_pnl := paper_pnl b + pnl,
                          paper_positions := AList.update symbol new_pos (paper_positions b),
                          log_lines := log_lines b @ [REVERSE symbol pnl, opened]\<rparr>
              | None \<Rightarrow>
                  b\<lparr>paper_positions := AList.update symbol new_pos (paper_positions b),
                    log_lines := log_lines b @ [opened]\<rparr>)"

definition execute_paper_trade :: "(string \<Rightarrow> real) \<Rightarrow> target dict \<Rightarrow> bot \<Rightarrow> bot" where
  "execute_paper_trade price targets b =
     (let b1 = foldl (close_symbol targets price) b (map fst (paper_positions b))
      in foldl (open_symbol price) b1 targets)"

text \<open>The unrealized PnL of the summary: reporting only, it writes no state.\<close>

definition unrealized_pnl :: "(string \<Rightarrow> real) \<Rightarrow> bot \<Rightarrow> real" where
  "unrealized_pnl price b =
     foldl (\<lambda>unrealized (symbol, pos).
              let current_price = price symbol
              in if current_price > 0 then
                   (if pos_side pos = Sell
                    then unrealized + (pos_entry pos - current_price) * pos_size pos
                    else unrealized + (current_price - pos_entry pos) * pos_size pos)
                 else unrealized)
       0 (paper_positions b)"

section \<open>Volatility ranking: \<open>calculate_volatility\<close> and \<open>get_top_volatile_alts\<close>\<close>

text \<open>
  A float of the log-return column: a finite number, an infinity (the sign plays no role
  in what follows) or NaN. \<open>np_log_ratio c prev\<close> is \<open>np.log(c / prev)\<close>, where \<open>prev\<close>
  is the shifted close, absent (NaN) in the first row. Division by zero gives an infinity
  or NaN, the logarithm of zero an infinity, the logarithm of a negative number NaN.
\<close>

datatype fl = Fin real | Inf | NaN

definition np_log_ratio :: "real \<Rightarrow> real option \<Rightarrow> fl" where
  "np_log_ratio c prev =
     (case prev of
        None \<Rightarrow> NaN
      | Some q \<Rightarrow>
          if q = 0 then (if c > 0 then Inf else NaN)
          else if c / q > 0 then Fin (ln (c / q))
          else if c / q = 0 then Inf
          else NaN)"

definition log_return :: "real list \<Rightarrow> fl list" where
  "log_return closes =
     map (\<lambda>(c, prev). np_log_ratio c prev) (zip closes (None # map Some closes))"

text \<open>\<open>Series.tail(n)\<close>: the last \<open>n\<close> rows; for a negative \<open>n\<close>, all rows but the first \<open>-n\<close>.\<close>

definition series_tail :: "int \<Rightarrow> 'a list \<Rightarrow> 'a list" where
  "series_tail n xs =
     (if n \<ge> 0 then drop (length xs - nat n) xs else drop (nat (- n)) xs)"

text \<open>
  \<open>Series.std()\<close>: the sample standard deviation (\<open>ddof = 1\<close>) of the rows that are not
  NaN; NaN when fewer than two rows are left or one of them is infinite.
\<close>

definition series_std :: "fl list \<Rightarrow> fl" where
  "series_std xs =
     (let vs = filter (\<lambda>x. x \<noteq> NaN) xs; n = length vs
      in if n < 2 then NaN
         else if Inf \<in> set vs then NaN
         else
           let rs = map (\<lambda>x. case x of Fin r \<Rightarrow> r | _ \<Rightarrow> 0) vs;
               mean = sum_list rs / real n
           in Fin (sqrt ((\<Sum>r\<leftarrow>rs. (r - mean)\<^sup>2) / real (n - 1))))"

text \<open>The data frame is the list of its closes, in ascending time.\<close>

definition calculate_volatility :: "int \<Rightarrow> real list \<Rightarrow> real" where
  "calculate_volatility lookback df =
     (if int (length df) < lookback then 0
      else case series_std (series_tail lookback (log_return df)) of
             Fin vol \<Rightarrow> vol
           | _ \<Rightarrow> 0)"

text \<open>
  The loop of \<open>get_top_volatile_alts\<close> over the symbols: the list \<open>volatilities\<close> in the
  order of its \<open>append\<close>s.
\<close>

fun volatilities_loop :: "int \<Rightarrow> (string \<Rightarrow> real list) \<Rightarrow> string list \<Rightarrow> (string \<times> real) list" where
  "volatilities_loop lookback klines [] = []"
| "volatilities_loop lookback klines (symbol # symbols) =
     (if symbol = ''BTCUSDT'' then volatilities_loop lookback klines symbols
      else
        let df = klines symbol
        in if df = [] then volatilities_loop lookback klines symbols
           else
             let vol = calculate_volatility lookback df
             in if vol > 0 then (symbol, vol) # volatilities_loop lookback klines symbols
                else volatilities_loop lookback klines symbols)"

text \<open>
  \<open>list.sort(key=..., reverse=True)\<close>: the list is reversed, sorted by a stable ascending
  sort, and reversed again.
\<close>

definition sort_reverse :: "('a \<Rightarrow> real) \<Rightarrow> 'a list \<Rightarrow> 'a list" where
  "sort_reverse key xs = rev (sort_key key (rev xs))"

text \<open>The slice \<open>xs[:n]\<close>; a negative \<open>n\<close> counts from the end.\<close>

definition slice_to :: "int \<Rightarrow> 'a list \<Rightarrow> 'a list" where
  "slice_to n xs = (if n \<ge> 0 then take (nat n) xs else take (length xs - nat (- n)) xs)"

definition sorted_volatilities :: "config \<Rightarrow> gateway \<Rightarrow> (string \<times> real) list" where
  "sorted_volatilities cfg gw =
     sort_reverse snd
       (volatilities_loop (LOOKBACK cfg) (get_klines gw) (get_usdt_perp_symbols gw))"

definition get_top_volatile_alts :: "config \<Rightarrow> gateway \<Rightarrow> (string \<times> real) list" where
  "get_top_volatile_alts cfg gw = slice_to (N_SHORTS cfg) (sorted_volatilities cfg gw)"

section \<open>Target allocation: \<open>calculate_target_positions\<close>\<close>

text \<open>\<open>CAPITAL / N_SHORTS\<close> raises \<open>ZeroDivisionError\<close> when \<open>N_SHORTS\<close> is 0.\<close>

definition calculate_target_positions :: "config \<Rightarrow> (string \<times> real) list \<Rightarrow> error + target dict" where
  "calculate_target_positions cfg top_volatile =
     (let targets = AList.update ''BTCUSDT'' \<lparr>tgt_side = Buy, tgt_value = CAPITAL cfg\<rparr> []
      in if N_SHORTS cfg = 0 then Inl ZeroDivisionError
         else
           let short_value_each = CAPITAL cfg / real_of_int (N_SHORTS cfg)
           in Inr (foldl (\<lambda>targets (symbol, vol).
                            AList.update symbol
                              \<lparr>tgt_side = Sell, tgt_value = short_value_each\<rparr> targets)
                     targets top_volatile))"

section \<open>Reconciliation in live mode: \<open>execute_live_trade\<close>\<close>

text \<open>Python's \<open>round\<close> of a float: to the nearest integer, a tie to the even one.\<close>

definition py_round :: "real \<Rightarrow> int" where
  "py_round x =
     (let f = \<lfloor>x\<rfloor>; d = x - of_int f
      in if d < 1 / 2 then f else if d > 1 / 2 then f + 1
         else if even f then f else f + 1)"

text \<open>
  The \<open>try\<close> block that opens one target: the order handed to \<open>place_order\<close>, or none
  when an exception is caught before (a failing call, a zero price or a zero step).
\<close>

definition open_order :: "gateway \<Rightarrow> string \<Rightarrow> target \<Rightarrow> order list" where
  "open_order gw symbol target =
     (if \<not> set_leverage gw symbol then []
      else case lot_size_filter gw symbol of
             None \<Rightarrow> []
           | Some (min_qty, qty_step) \<Rightarrow>
               let price = get_current_price gw symbol
               in if price = 0 then []
                  else
                    let qty = tgt_value target / price
                    in if qty_step = 0 then []
                       else [\<lparr>ord_symbol = symbol, ord_side = tgt_side target,
                               ord_qty = max min_qty (real_of_int (py_round (qty / qty_step)) * qty_step),
                               ord_reduce_only = False\<rparr>])"

text \<open>The orders handed to \<open>place_order\<close> during one live pass, in their order.\<close>

definition execute_live_trade :: "gateway \<Rightarrow> target dict \<Rightarrow> order list" where
  "execute_live_trade gw targets =
     (case get_positions gw of
        None \<Rightarrow> []
      | Some result \<Rightarrow>
          let current_positions =
                foldl (\<lambda>d pos. if lp_size pos > 0 then AList.update (lp_symbol pos) pos d else d)
                  [] result;
              closes =
                concat (map (\<lambda>(symbol, pos).
                               if symbol \<notin> set (map fst targets)
                               then [\<lparr>ord_symbol = symbol,
                                      ord_side = (if lp_side pos = Buy then Sell else Buy),
                                      ord_qty = lp_size pos, ord_reduce_only = True\<rparr>]
                               else [])
                          current_positions);
              opens =
                concat (map (\<lambda>(symbol, target).
                               if symbol \<in> set (map fst current_positions) then []
                               else open_order gw symbol target)
                          targets)
          in closes @ opens)"

section \<open>One cycle: \<open>run_once\<close>\<close>

definition run_once :: "config \<Rightarrow> gateway \<Rightarrow> bot \<Rightarrow> error + bot" where
  "run_once cfg gw b =
     (let top_volatile = get_top_volatile_alts cfg gw
      in if int (length top_volatile) < N_SHORTS cfg
         then Inr (b\<lparr>log_lines := log_lines b
                        @ [WARN_only_found (length top_volatile) (N_SHORTS cfg)]\<rparr>)
         else
           case calculate_target_positions cfg top_volatile of
             Inl e \<Rightarrow> Inl e
           | Inr targets \<Rightarrow>
               let b1 = (if PAPER_TRADE cfg
                         then execute_paper_trade (get_current_price gw) targets b
                         else b\<lparr>orders := orders b @ execute_live_trade gw targets\<rparr>)
               in Inr (b1\<lparr>log_lines := log_lines b1 @ [REBALANCE_complete]\<rparr>))"

section \<open>The scheduler: \<open>get_next_rebalance_time\<close>\<close>

text \<open>
  A UTC \<open>datetime\<close>: the date as its proleptic Gregorian ordinal (\<open>date.toordinal()\<close>,
  from 1 to 3652059, the last day of the year 9999) and the time of day. Adding one day
  to the last date raises \<open>OverflowError\<close>.
\<close>

record datetime =
  dt_day :: int
  dt_hour :: nat
  dt_minute :: nat
  dt_second :: nat
  dt_microsecond :: nat

definition valid_datetime :: "datetime \<Rightarrow> bool" where
  "valid_datetime t \<longleftrightarrow>
     1 \<le> dt_day t \<and> dt_day t \<le> 3652059 \<and> dt_hour t < 24 \<and> dt_minute t < 60
     \<and> dt_second t < 60 \<and> dt_microsecond t < 1000000"

definition get_next_rebalance_time :: "datetime \<Rightarrow> error + datetime" where
  "get_next_rebalance_time now =
     (let current_hour = dt_hour now;
          next_hour = ((current_hour div 4) + 1) * 4
      in if next_hour \<ge> 24 then
           (if dt_day now + 1 > 3652059 then Inl OverflowError
            else Inr \<lparr>dt_day = dt_day now + 1, dt_hour = 0, dt_minute = 0, dt_second = 0,
                      dt_microsecond = 0\<rparr>)
         else Inr \<lparr>dt_day = dt_day now, dt_hour = next_hour, dt_minute = 0, dt_second = 0,
                   dt_microsecond = 0\<rparr>)"

text \<open>The instant of a \<open>datetime\<close>, in microseconds since the start of day 0.\<close>

definition microseconds :: "datetime \<Rightarrow> int" where
  "microseconds t =
     (((dt_day t * 24 + int (dt_hour t)) * 60 + int (dt_minute t)) * 60 + int (dt_second t))
       * 1000000 + int (dt_microsecond t)"

definition four_hours :: int where
  "four_hours = 4 * 60 * 60 * 1000000"

section \<open>Notions used to state the properties\<close>

text \<open>
  The PnL of a position closed at the exit price \<open>p\<close>: \<open>(e - p) * s\<close> for a short,
  \<open>(p - e) * s\<close> for a long, with \<open>e\<close> the entry price and \<open>s\<close> the size.
\<close>

definition realized_pnl :: "position \<Rightarrow> real \<Rightarrow> real" where
  "realized_pnl pos p =
     (case pos_side pos of
        Sell \<Rightarrow> (pos_entry pos - p) * pos_size pos
      | Buy \<Rightarrow> (p - pos_entry pos) * pos_size pos)"

text \<open>
  What one step of each loop does, seen from the ledger before the pass: the PnL the first
  loop realizes for an open symbol (\<open>close_gain\<close>), and for a targeted symbol the position
  the second loop leaves (\<open>open_result\<close>, with \<open>new_position\<close> the position it opens) and
  the PnL it realizes (\<open>reverse_gain\<close>).
\<close>

definition close_gain :: "target dict \<Rightarrow> (string \<Rightarrow> real) \<Rightarrow> position dict \<Rightarrow> string \<Rightarrow> real" where
  "close_gain T p P k =
     (case map_of P k of
        Some pos \<Rightarrow> if k \<notin> set (map fst T) \<and> p k > 0 then realized_pnl pos (p k) else 0
      | None \<Rightarrow> 0)"

definition new_position :: "(string \<Rightarrow> real) \<Rightarrow> string \<Rightarrow> target \<Rightarrow> position" where
  "new_position p s t =
     \<lparr>pos_side = tgt_side t, pos_size = tgt_value t / p s, pos_entry = p s\<rparr>"

definition open_result ::
  "(string \<Rightarrow> real) \<Rightarrow> string \<Rightarrow> target \<Rightarrow> position option \<Rightarrow> position option" where
  "open_result p s t old =
     (if p s \<le> 0 then old
      else case old of
             Some pos \<Rightarrow> if pos_side pos = tgt_side t then Some pos else Some (new_position p s t)
           | None \<Rightarrow> Some (new_position p s t))"

definition reverse_gain ::
  "(string \<Rightarrow> real) \<Rightarrow> string \<Rightarrow> target \<Rightarrow> position option \<Rightarrow> real" where
  "reverse_gain p s t old =
     (case old of
        Some pos \<Rightarrow> if p s > 0 \<and> pos_side pos \<noteq> tgt_side t then realized_pnl pos (p s) else 0
      | None \<Rightarrow> 0)"

section \<open>The two loops of \<open>execute_paper_trade\<close>\<close>

lemma realized_pnl_if:
  "realized_pnl pos p =
     (if pos_side pos = Sell then (pos_entry pos - p) * pos_size pos
      else (p - pos_entry pos) * pos_size pos)"
  by (cases "pos_side pos") (simp_all add: realized_pnl_def)

lemma close_symbol_positions:
  "paper_positions (close_symbol T p b k) =
     (if k \<notin> set (map fst T) then AList.delete k (paper_positions b) else paper_positions b)"
  by (auto simp: close_symbol_def Let_def split: option.splits)
   (metis AList.delete_id domIff dom_map_of_conv_image_fst)

lemma close_loop_positions:
  "paper_positions (foldl (close_symbol T p) b ks) =
     filter (\<lambda>kv. fst kv \<notin> set ks \<or> fst kv \<in> set (map fst T)) (paper_positions b)"
proof (induction ks arbitrary: b)
  case Nil
  show ?case by simp
next
  case (Cons k ks)
  show ?case
    by (auto simp: Cons.IH close_symbol_positions AList.delete_eq case_prod_beta intro!: filter_cong)
qed

lemma close_symbol_pnl:
  "paper_pnl (close_symbol T p b k) = paper_pnl b + close_gain T p (paper_positions b) k"
  by (auto simp: close_symbol_def close_gain_def realized_pnl_if Let_def split: option.splits)

lemma close_gain_delete:
  "k' \<noteq> k \<Longrightarrow> close_gain T p (AList.delete k P) k' = close_gain T p P k'"
  by (simp add: close_gain_def)

lemma close_loop_pnl:
  "distinct ks \<Longrightarrow>
   paper_pnl (foldl (close_symbol T p) b ks) =
     paper_pnl b + (\<Sum>k\<leftarrow>ks. close_gain T p (paper_positions b) k)"
proof (induction ks arbitrary: b)
  case Nil
  show ?case by simp
next
  case (Cons k ks)
  have "(\<Sum>k'\<leftarrow>ks. close_gain T p (paper_positions (close_symbol T p b k)) k') =
        (\<Sum>k'\<leftarrow>ks. close_gain T p (paper_positions b) k')"
  proof (intro arg_cong[where f = sum_list] map_cong refl)
    fix k' assume "k' \<in> set ks"
    with Cons.prems have "k' \<noteq> k" by auto
    then show "close_gain T p (paper_positions (close_symbol T p b k)) k' =
               close_gain T p (paper_positions b) k'"
      by (simp add: close_symbol_positions close_gain_delete)
  qed
  with Cons show ?case
    by (simp add: close_symbol_pnl)
qed

lemma close_symbol_targeted: "k \<in> set (map fst T) \<Longrightarrow> close_symbol T p b k = b"
  by (simp add: close_symbol_def)

lemma close_loop_targeted: "set ks \<subseteq> set (map fst T) \<Longrightarrow> foldl (close_symbol T p) b ks = b"
  by (induction ks arbitrary: b) (simp_all add: close_symbol_targeted)

lemma open_symbol_lookup_other:
  "s \<noteq> fst item \<Longrightarrow>
   map_of (paper_positions (open_symbol p b item)) s = map_of (paper_positions b) s"
  by (simp add: open_symbol_def Let_def AList.update_conv' split: option.splits)

lemma open_symbol_lookup_same:
  "map_of (paper_positions (open_symbol p b (s, t))) s =
     open_result p s t (map_of (paper_positions b) s)"
  by (simp add: open_symbol_def open_result_def new_position_def Let_def AList.update_conv'
           split: option.splits)

lemma open_symbol_pnl:
  "paper_pnl (open_symbol p b (s, t)) =
     paper_pnl b + reverse_gain p s t (map_of (paper_positions b) s)"
  by (simp add: open_symbol_def reverse_gain_def realized_pnl_if Let_def split: option.splits)

lemma open_loop_lookup_notin:
  "s \<notin> set (map fst T) \<Longrightarrow>
   map_of (paper_positions (foldl (open_symbol p) b T)) s = map_of (paper_positions b) s"
  by (induction T arbitrary: b) (simp_all add: open_symbol_lookup_other)

lemma distinct_fst_head:
  "distinct (map fst (x # xs)) \<Longrightarrow> y \<in> set xs \<Longrightarrow> fst y \<noteq> fst x"
  by (metis distinct.simps(2) image_eqI list.simps(9) set_map)

lemma open_loop_lookup_in:
  "distinct (map fst T) \<Longrightarrow> (s, t) \<in> set T \<Longrightarrow>
   map_of (paper_positions (foldl (open_symbol p) b T)) s =
     open_result p s t (map_of (paper_positions b) s)"
proof (induction T arbitrary: b)
  case Nil
  then show ?case by simp
next
  case (Cons item T)
  show ?case
  proof (cases "item = (s, t)")
    case True
    with Cons.prems have "s \<notin> set (map fst T)" by auto
    with True show ?thesis
      by (simp add: open_loop_lookup_notin open_symbol_lookup_same)
  next
    case False
    with Cons.prems have in_T: "(s, t) \<in> set T" and "distinct (map fst T)" by auto
    moreover from distinct_fst_head[OF Cons.prems(1) in_T] have "s \<noteq> fst item" by simp
    ultimately show ?thesis
      by (simp add: Cons.IH open_symbol_lookup_other)
  qed
qed

lemma open_loop_pnl:
  "distinct (map fst T) \<Longrightarrow>
   paper_pnl (foldl (open_symbol p) b T) =
     paper_pnl b + (\<Sum>(s, t)\<leftarrow>T. reverse_gain p s t (map_of (paper_positions b) s))"
proof (induction T arbitrary: b)
  case Nil
  show ?case by simp
next
  case (Cons item T)
  obtain s t where item: "item = (s, t)" by (cases item)
  have "(\<Sum>(s', t')\<leftarrow>T. reverse_gain p s' t' (map_of (paper_positions (open_symbol p b item)) s')) =
        (\<Sum>(s', t')\<leftarrow>T. reverse_gain p s' t' (map_of (paper_positions b) s'))"
  proof (intro arg_cong[where f = sum_list] map_cong refl)
    fix x assume "x \<in> set T"
    with Cons.prems have "fst x \<noteq> fst item" by (rule distinct_fst_head)
    then show "(case x of (s', t') \<Rightarrow>
                  reverse_gain p s' t' (map_of (paper_positions (open_symbol p b item)) s')) =
               (case x of (s', t') \<Rightarrow> reverse_gain p s' t' (map_of (paper_positions b) s'))"
      by (simp add: case_prod_beta open_symbol_lookup_other)
  qed
  with Cons show ?case
    by (simp add: item open_symbol_pnl)
qed

lemma map_of_filter_targeted:
  "s \<in> K \<Longrightarrow> map_of (filter (\<lambda>kv. fst kv \<in> K) P) s = map_of P s"
  by (induction P) auto

lemma close_loop_all_positions:
  "paper_positions (foldl (close_symbol T p) b (map fst (paper_positions b))) =
     filter (\<lambda>kv. fst kv \<in> set (map fst T)) (paper_positions b)"
  by (simp add: close_loop_positions) (rule filter_cong, auto)

lemma close_gain_sum:
  "distinct (map fst P) \<Longrightarrow>
   (\<Sum>k\<leftarrow>map fst P. close_gain T p P k) =
   (\<Sum>(k, pos)\<leftarrow>P. if k \<notin> set (map fst T) \<and> p k > 0 then realized_pnl pos (p k) else 0)"
proof -
  assume d: "distinct (map fst P)"
  have "map (close_gain T p P \<circ> fst) P =
        map (\<lambda>(k, pos). if k \<notin> set (map fst T) \<and> p k > 0 then realized_pnl pos (p k) else 0) P"
  proof (rule map_cong[OF refl])
    fix x assume "x \<in> set P"
    with d have "map_of P (fst x) = Some (snd x)" by simp
    then show "(close_gain T p P \<circ> fst) x =
               (case x of (k, pos) \<Rightarrow>
                  if k \<notin> set (map fst T) \<and> p k > 0 then realized_pnl pos (p k) else 0)"
      by (simp add: close_gain_def case_prod_beta)
  qed
  then show ?thesis by (simp only: map_map)
qed

lemma paper_pnl_pass:
  assumes "distinct (map fst (paper_positions b))" and "distinct (map fst T)"
  shows "paper_pnl (execute_paper_trade p T b) =
           paper_pnl b
           + (\<Sum>(k, pos)\<leftarrow>paper_positions b.
                if k \<notin> set (map fst T) \<and> p k > 0 then realized_pnl pos (p k) else 0)
           + (\<Sum>(s, t)\<leftarrow>T. reverse_gain p s t (map_of (paper_positions b) s))"
proof -
  let ?b1 = "foldl (close_symbol T p) b (map fst (paper_positions b))"
  have "(\<Sum>(s, t)\<leftarrow>T. reverse_gain p s t (map_of (paper_positions ?b1) s)) =
        (\<Sum>(s, t)\<leftarrow>T. reverse_gain p s t (map_of (paper_positions b) s))"
  proof (intro arg_cong[where f = sum_list] map_cong refl)
    fix x assume "x \<in> set T"
    then have "fst x \<in> set (map fst T)" by simp
    then show "(case x of (s, t) \<Rightarrow> reverse_gain p s t (map_of (paper_positions ?b1) s)) =
               (case x of (s, t) \<Rightarrow> reverse_gain p s t (map_of (paper_positions b) s))"
      by (simp only: close_loop_all_positions map_of_filter_targeted case_prod_beta)
  qed
  moreover have "paper_pnl (execute_paper_trade p T b) =
      paper_pnl ?b1 + (\<Sum>(s, t)\<leftarrow>T. reverse_gain p s t (map_of (paper_positions ?b1) s))"
    by (simp only: execute_paper_trade_def Let_def open_loop_pnl[OF assms(2)])
  moreover have "paper_pnl ?b1 =
      paper_pnl b + (\<Sum>k\<leftarrow>map fst (paper_positions b). close_gain T p (paper_positions b) k)"
    by (rule close_loop_pnl[OF assms(1)])
  ultimately show ?thesis
    by (simp only: close_gain_sum[OF assms(1)])
qed

lemma paper_lookup_targeted:
  assumes "distinct (map fst T)" and "(s, t) \<in> set T"
  shows "map_of (paper_positions (execute_paper_trade p T b)) s =
           open_result p s t (map_of (paper_positions b) s)"
proof -
  from assms(2) have "s \<in> set (map fst T)" by force
  then show ?thesis
    using assms
    by (simp add: execute_paper_trade_def Let_def open_loop_lookup_in close_loop_all_positions
             map_of_filter_targeted)
qed

lemma paper_lookup_untargeted:
  assumes "s \<notin> set (map fst T)"
  shows "map_of (paper_positions (execute_paper_trade p T b)) s = None"
proof -
  have "map_of (filter (\<lambda>kv. fst kv \<in> set (map fst T)) (paper_positions b)) s = None"
    using assms by (induction "paper_positions b" arbitrary: b) (auto simp: map_of_eq_None_iff)
  then show ?thesis
    using assms
    by (simp add: execute_paper_trade_def Let_def open_loop_lookup_notin close_loop_all_positions)
qed

lemma sum_list_split_key:
  "distinct (map fst T) \<Longrightarrow> (s, t) \<in> set T \<Longrightarrow>
   sum_list (map g T) = g (s, t) + sum_list (map (\<lambda>x. if fst x = s then 0 else (g x :: real)) T)"
proof (induction T)
  case Nil
  then show ?case by simp
next
  case (Cons item T)
  show ?case
  proof (cases "item = (s, t)")
    case True
    have "map (\<lambda>x. if fst x = s then 0 else g x) T = map g T"
    proof (rule map_cong[OF refl])
      fix x assume "x \<in> set T"
      from distinct_fst_head[OF Cons.prems(1) this] True show "(if fst x = s then 0 else g x) = g x"
        by simp
    qed
    then have "sum_list (map (\<lambda>x. if fst x = s then 0 else g x) T) = sum_list (map g T)"
      by (rule arg_cong)
    with True show ?thesis by simp
  next
    case False
    with Cons.prems have in_T: "(s, t) \<in> set T" and "distinct (map fst T)" by auto
    moreover from distinct_fst_head[OF Cons.prems(1) in_T] have "s \<noteq> fst item" by simp
    ultimately show ?thesis
      using Cons.IH by simp
  qed
qed

lemma open_symbol_hold:
  assumes "price s > 0" and "map_of (paper_positions b) s = Some pos"
    and "pos_side pos = tgt_side t"
  shows "open_symbol price b (s, t) =
           b\<lparr>log_lines := log_lines b @ [HOLD (tgt_side t) s (pos_size pos) (pos_entry pos)]\<rparr>"
  using assms by (simp add: open_symbol_def Let_def)

lemma open_loop_all_hold:
  assumes "\<forall>(s, t) \<in> set T. price s > 0 \<and>
             (\<exists>pos. map_of (paper_positions b) s = Some pos \<and> pos_side pos = tgt_side t)"
  shows "\<exists>holds. foldl (open_symbol price) b T = b\<lparr>log_lines := log_lines b @ holds\<rparr>
           \<and> list_all2 (\<lambda>(s, t) line. \<exists>pos. map_of (paper_positions b) s = Some pos
                          \<and> line = HOLD (tgt_side t) s (pos_size pos) (pos_entry pos)) T holds"
  using assms
proof (induction T arbitrary: b)
  case Nil
  then show ?case by simp
next
  case (Cons item T)
  obtain s t where item: "item = (s, t)" by (cases item)
  from Cons.prems item obtain pos where
    pos: "price s > 0" "map_of (paper_positions b) s = Some pos" "pos_side pos = tgt_side t"
    by auto
  let ?line = "HOLD (tgt_side t) s (pos_size pos) (pos_entry pos)"
  let ?b' = "b\<lparr>log_lines := log_lines b @ [?line]\<rparr>"
  have step: "open_symbol price b item = ?b'"
    unfolding item using pos by (rule open_symbol_hold[where price = price and b = b and s = s])
  have "\<forall>(s, t) \<in> set T. price s > 0 \<and>
          (\<exists>pos. map_of (paper_positions ?b') s = Some pos \<and> pos_side pos = tgt_side t)"
    using Cons.prems by simp
  from Cons.IH[OF this] obtain holds where
    run: "foldl (open_symbol price) ?b' T = ?b'\<lparr>log_lines := log_lines ?b' @ holds\<rparr>"
    and hs: "list_all2 (\<lambda>(s, t) line. \<exists>pos. map_of (paper_positions ?b') s = Some pos
                          \<and> line = HOLD (tgt_side t) s (pos_size pos) (pos_entry pos)) T holds"
    by blast
  have "foldl (open_symbol price) b (item # T) = b\<lparr>log_lines := log_lines b @ (?line # holds)\<rparr>"
    by (simp add: step run)
  moreover have "list_all2 (\<lambda>(s, t) line. \<exists>pos. map_of (paper_positions b) s = Some pos
                          \<and> line = HOLD (tgt_side t) s (pos_size pos) (pos_entry pos))
                   (item # T) (?line # holds)"
    using hs pos by (simp add: item)
  ultimately show ?case by blast
qed

lemma open_result_side:
  "price s > 0 \<Longrightarrow> \<exists>pos. open_result price s t old = Some pos \<and> pos_side pos = tgt_side t"
  by (simp add: open_result_def new_position_def split: option.splits)

lemma open_symbol_log_mono:
  "set (log_lines b) \<subseteq> set (log_lines (open_symbol price b item))"
  by (auto simp: open_symbol_def Let_def split: option.splits)

lemma open_loop_log_mono:
  "set (log_lines b) \<subseteq> set (log_lines (foldl (open_symbol price) b T))"
proof (induction T arbitrary: b)
  case Nil
  show ?case by simp
next
  case (Cons item T)
  from open_symbol_log_mono[of b price item] Cons.IH[of "open_symbol price b item"]
  show ?case by auto
qed

lemma open_symbol_log_reverse:
  assumes "price s > 0" and "map_of (paper_positions b) s = Some pos"
    and "pos_side pos \<noteq> tgt_side t"
  shows "REVERSE s (realized_pnl pos (price s)) \<in> set (log_lines (open_symbol price b (s, t)))"
  using assms by (simp add: open_symbol_def Let_def realized_pnl_if)

lemma open_loop_log_reverse:
  assumes "distinct (map fst T)" and "(s, t) \<in> set T"
    and "price s > 0" and "map_of (paper_positions b) s = Some pos"
    and "pos_side pos \<noteq> tgt_side t"
  shows "REVERSE s (realized_pnl pos (price s)) \<in> set (log_lines (foldl (open_symbol price) b T))"
  using assms
proof (induction T arbitrary: b)
  case Nil
  then show ?case by simp
next
  case (Cons item T)
  show ?case
  proof (cases "item = (s, t)")
    case True
    from open_symbol_log_reverse[where price = price and s = s, OF Cons.prems(3,4,5)]
      open_loop_log_mono[of "open_symbol price b (s, t)" price T]
    show ?thesis by (auto simp: True)
  next
    case False
    with Cons.prems have in_T: "(s, t) \<in> set T" and dT: "distinct (map fst T)" by auto
    from distinct_fst_head[OF Cons.prems(1) in_T] have "s \<noteq> fst item" by simp
    then have "map_of (paper_positions (open_symbol price b item)) s = Some pos"
      using Cons.prems(4) by (simp add: open_symbol_lookup_other)
    from Cons.IH[OF dT in_T Cons.prems(3) this Cons.prems(5)] show ?thesis by simp
  qed
qed

lemma paper_log_reverse:
  assumes dT: "distinct (map fst T)" and tgt: "(s, t) \<in> set T"
    and "price s > 0" and "map_of (paper_positions b) s = Some pos"
    and "pos_side pos \<noteq> tgt_side t"
  shows "REVERSE s (realized_pnl pos (price s)) \<in> set (log_lines (execute_paper_trade price T b))"
proof -
  let ?b1 = "foldl (close_symbol T price) b (map fst (paper_positions b))"
  from tgt have "s \<in> set (map fst T)" by force
  then have "map_of (paper_positions ?b1) s = Some pos"
    using assms(4) by (simp only: close_loop_all_positions map_of_filter_targeted)
  from open_loop_log_reverse[where price = price and s = s, OF dT tgt assms(3) this assms(5)] show ?thesis
    by (simp only: execute_paper_trade_def Let_def)
qed

section \<open>Properties of the paper ledger\<close>

text \<open>
  A targeted symbol whose price is unavailable is left as it is by the whole pass: the
  second loop \<open>continue\<close>s before it reads the ledger, and the first loop never touches a
  targeted symbol.
\<close>

lemma unpriced_target_untouched:
  assumes "distinct (map fst targets)" and "(symbol, target) \<in> set targets"
    and "price symbol \<le> 0"
  shows "map_of (paper_positions (execute_paper_trade price targets b)) symbol =
           map_of (paper_positions b) symbol"
  using assms(3) by (simp add: paper_lookup_targeted[OF assms(1,2)] open_result_def)

text \<open>
  Claim C1: a symbol whose current price is unavailable is skipped for the cycle, its
  previous position survives unchanged and realized PnL does not change, for targeted
  symbols and for previously-open symbols absent from the targets alike.
  For a targeted symbol this is \<open>unpriced_target_untouched\<close>. For a symbol absent from
  the targets the first loop tests the price only around the PnL and deletes the position
  in every case: with the short position of \<open>SYM\<close> open, \<open>SYM\<close> not targeted and no price
  available, the pass ends with no position at all and nothing realized.
\<close>

theorem C1_unpriced_close_drops_position:
  "execute_paper_trade (\<lambda>s. 0) [(''BTCUSDT'', \<lparr>tgt_side = Buy, tgt_value = 1000\<rparr>)]
     \<lparr>paper_pnl = 0,
       paper_positions = [(''SYM'', \<lparr>pos_side = Sell, pos_size = 10, pos_entry = 5\<rparr>)],
       log_lines = [], orders = []\<rparr>
   = \<lparr>paper_pnl = 0, paper_positions = [], log_lines = [], orders = []\<rparr>"
  by (simp add: execute_paper_trade_def close_symbol_def open_symbol_def)

text \<open>
  Claim C2, for the paper ledger and an available price: a targeted symbol whose open
  position has the side opposite to its target is reversed. After the pass its position
  has the target's side, the current price as entry and size = target notional / current
  price; the pass logs REVERSE with \<open>realized_pnl\<close> of the old position at the current
  price; and it realizes exactly that amount more than the same pass run without the old
  position.
\<close>

theorem C2_paper_reverse:
  assumes dP: "distinct (map fst (paper_positions b))"
    and dT: "distinct (map fst targets)"
    and tgt: "(symbol, target) \<in> set targets"
    and old: "map_of (paper_positions b) symbol = Some pos"
    and opp: "pos_side pos \<noteq> tgt_side target"
    and avail: "price symbol > 0"
  shows "map_of (paper_positions (execute_paper_trade price targets b)) symbol =
           Some \<lparr>pos_side = tgt_side target, pos_size = tgt_value target / price symbol,
                 pos_entry = price symbol\<rparr>
         \<and> REVERSE symbol (realized_pnl pos (price symbol))
             \<in> set (log_lines (execute_paper_trade price targets b))
         \<and> paper_pnl (execute_paper_trade price targets b) =
             paper_pnl (execute_paper_trade price targets
                          (b\<lparr>paper_positions := AList.delete symbol (paper_positions b)\<rparr>))
             + realized_pnl pos (price symbol)"
proof (intro conjI)
  show "REVERSE symbol (realized_pnl pos (price symbol))
          \<in> set (log_lines (execute_paper_trade price targets b))"
    using avail old opp by (rule paper_log_reverse[where price = price and s = symbol, OF dT tgt])
next
  show "map_of (paper_positions (execute_paper_trade price targets b)) symbol =
          Some \<lparr>pos_side = tgt_side target, pos_size = tgt_value target / price symbol,
                pos_entry = price symbol\<rparr>"
    using old opp avail
    by (simp add: paper_lookup_targeted[OF dT tgt] open_result_def new_position_def)
next
  let ?P = "paper_positions b"
  let ?b' = "b\<lparr>paper_positions := AList.delete symbol ?P\<rparr>"
  let ?f = "\<lambda>(k, pos). if k \<notin> set (map fst targets) \<and> price k > 0
                         then realized_pnl pos (price k) else 0"
  let ?g = "\<lambda>P (s, t). reverse_gain price s t (map_of P s)"
  from tgt have key: "symbol \<in> set (map fst targets)" by force
  have dP': "distinct (map fst (paper_positions ?b'))"
    using dP by (simp add: AList.distinct_delete)
  have closes: "sum_list (map ?f (AList.delete symbol ?P)) = sum_list (map ?f ?P)"
    unfolding AList.delete_eq
  proof (rule sum_list_map_filter)
    fix x assume "x \<in> set ?P" and "\<not> (case x of (k', _) \<Rightarrow> symbol \<noteq> k')"
    then have "fst x = symbol" by (simp add: case_prod_beta)
    with key show "?f x = 0" by (simp add: case_prod_beta)
  qed
  have rest: "map (\<lambda>x. if fst x = symbol then 0 else ?g (AList.delete symbol ?P) x) targets =
              map (\<lambda>x. if fst x = symbol then 0 else ?g ?P x) targets"
    by (rule map_cong[OF refl]) (simp add: case_prod_beta)
  have "sum_list (map (?g ?P) targets) =
          ?g ?P (symbol, target)
          + sum_list (map (\<lambda>x. if fst x = symbol then 0 else ?g ?P x) targets)"
    by (rule sum_list_split_key[OF dT tgt])
  moreover have "sum_list (map (?g (AList.delete symbol ?P)) targets) =
          ?g (AList.delete symbol ?P) (symbol, target)
          + sum_list (map (\<lambda>x. if fst x = symbol then 0 else ?g (AList.delete symbol ?P) x) targets)"
    by (rule sum_list_split_key[OF dT tgt])
  moreover have "?g ?P (symbol, target) = realized_pnl pos (price symbol)"
    using old opp avail by (simp add: reverse_gain_def)
  moreover have "?g (AList.delete symbol ?P) (symbol, target) = 0"
    by (simp add: reverse_gain_def AList.delete_conv')
  ultimately have revs: "sum_list (map (?g ?P) targets) =
      sum_list (map (?g (AList.delete symbol ?P)) targets) + realized_pnl pos (price symbol)"
    by (simp only: rest)
  have "paper_pnl (execute_paper_trade price targets b) =
          paper_pnl b + sum_list (map ?f ?P) + sum_list (map (?g ?P) targets)"
    by (rule paper_pnl_pass[OF dP dT])
  moreover have "paper_pnl (execute_paper_trade price targets ?b') =
          paper_pnl ?b' + sum_list (map ?f (paper_positions ?b'))
          + sum_list (map (?g (paper_positions ?b')) targets)"
    by (rule paper_pnl_pass[OF dP' dT])
  ultimately show "paper_pnl (execute_paper_trade price targets b) =
             paper_pnl (execute_paper_trade price targets ?b') + realized_pnl pos (price symbol)"
    using closes revs by simp
qed

theorem C2_paper_reverse_witness:
  "distinct (map fst (paper_positions
       \<lparr>paper_pnl = 0,
         paper_positions = [(''SYM'', \<lparr>pos_side = Sell, pos_size = 10, pos_entry = 5\<rparr>)],
         log_lines = [], orders = []\<rparr>))
   \<and> distinct (map fst [(''SYM'', \<lparr>tgt_side = Buy, tgt_value = 40\<rparr>)])
   \<and> (''SYM'', \<lparr>tgt_side = Buy, tgt_value = 40\<rparr>) \<in> set [(''SYM'', \<lparr>tgt_side = Buy, tgt_value = 40\<rparr>)]
   \<and> map_of (paper_positions
       \<lparr>paper_pnl = 0,
         paper_positions = [(''SYM'', \<lparr>pos_side = Sell, pos_size = 10, pos_entry = 5\<rparr>)],
         log_lines = [], orders = []\<rparr>) ''SYM'' = Some \<lparr>pos_side = Sell, pos_size = 10, pos_entry = 5\<rparr>
   \<and> pos_side \<lparr>pos_side = Sell, pos_size = 10, pos_entry = 5\<rparr> \<noteq> tgt_side \<lparr>tgt_side = Buy, tgt_value = 40\<rparr>
   \<and> (4::real) > 0
   \<and> map_of (paper_positions (execute_paper_trade (\<lambda>s. 4)
         [(''SYM'', \<lparr>tgt_side = Buy, tgt_value = 40\<rparr>)]
         \<lparr>paper_pnl = 0,
           paper_positions = [(''SYM'', \<lparr>pos_side = Sell, pos_size = 10, pos_entry = 5\<rparr>)],
           log_lines = [], orders = []\<rparr>)) ''SYM''
       = Some \<lparr>pos_side = Buy, pos_size = 10, pos_entry = 4\<rparr>
   \<and> REVERSE ''SYM'' 10 \<in> set (log_lines (execute_paper_trade (\<lambda>s. 4)
         [(''SYM'', \<lparr>tgt_side = Buy, tgt_value = 40\<rparr>)]
         \<lparr>paper_pnl = 0,
           paper_positions = [(''SYM'', \<lparr>pos_side = Sell, pos_size = 10, pos_entry = 5\<rparr>)],
           log_lines = [], orders = []\<rparr>))
   \<and> paper_pnl (execute_paper_trade (\<lambda>s. 4)
         [(''SYM'', \<lparr>tgt_side = Buy, tgt_value = 40\<rparr>)]
         \<lparr>paper_pnl = 0,
           paper_positions = [(''SYM'', \<lparr>pos_side = Sell, pos_size = 10, pos_entry = 5\<rparr>)],
           log_lines = [], orders = []\<rparr>) = 10"
  using C2_paper_reverse[of
      "\<lparr>paper_pnl = 0,
        paper_positions = [(''SYM'', \<lparr>pos_side = Sell, pos_size = 10, pos_entry = 5\<rparr>)],
        log_lines = [], orders = []\<rparr>"
      "[(''SYM'', \<lparr>tgt_side = Buy, tgt_value = 40\<rparr>)]"
      "''SYM''" "\<lparr>tgt_side = Buy, tgt_value = 40\<rparr>"
      "\<lparr>pos_side = Sell, pos_size = 10, pos_entry = 5\<rparr>" "\<lambda>s. 4"]
  by (simp add: realized_pnl_def execute_paper_trade_def close_symbol_def open_symbol_def Let_def)

text \<open>
  Claim C2 as stated also covers the live pass. There a targeted symbol that already has
  a position on the exchange is passed over, whatever its side: with a short of 10 \<open>SYM\<close>
  held and \<open>SYM\<close> targeted long, the live pass places no order.
\<close>

theorem C2_live_counterexample:
  "execute_live_trade
     \<lparr>get_usdt_perp_symbols = [], get_klines = (\<lambda>s. []), get_current_price = (\<lambda>s. 4),
       get_positions = Some [\<lparr>lp_symbol = ''SYM'', lp_side = Sell, lp_size = 10, lp_value = 50\<rparr>],
       set_leverage = (\<lambda>s. True), lot_size_filter = (\<lambda>s. Some (1, 1))\<rparr>
     [(''SYM'', \<lparr>tgt_side = Buy, tgt_value = 40\<rparr>)] = []"
  by (simp add: execute_live_trade_def)

text \<open>
  Claim C5: what a pass adds to the realized PnL is the sum of \<open>realized_pnl\<close>, that is
  \<open>(e - p) * s\<close> for a short and \<open>(p - e) * s\<close> for a long, over the positions it closes
  at an available price (open, not targeted) and over the positions it reverses (targeted
  on the opposite side, price available); nothing else changes the accumulator. A
  symbol that is not targeted and has a price has no position after the pass.
\<close>

theorem C5_realized_pnl:
  assumes "distinct (map fst (paper_positions b))" and "distinct (map fst targets)"
  shows "paper_pnl (execute_paper_trade price targets b) =
           paper_pnl b
           + (\<Sum>(symbol, pos)\<leftarrow>paper_positions b.
                if symbol \<notin> set (map fst targets) \<and> price symbol > 0
                then realized_pnl pos (price symbol) else 0)
           + (\<Sum>(symbol, target)\<leftarrow>targets.
                case map_of (paper_positions b) symbol of
                  Some pos \<Rightarrow>
                    if price symbol > 0 \<and> pos_side pos \<noteq> tgt_side target
                    then realized_pnl pos (price symbol) else 0
                | None \<Rightarrow> 0)
         \<and> (\<forall>symbol. symbol \<notin> set (map fst targets) \<and> price symbol > 0 \<longrightarrow>
               map_of (paper_positions (execute_paper_trade price targets b)) symbol = None)"
  using paper_pnl_pass[OF assms, of price] paper_lookup_untargeted[of _ targets price b]
  unfolding reverse_gain_def by blast

theorem C5_realized_pnl_witness:
  "distinct (map fst (paper_positions
       \<lparr>paper_pnl = 0,
         paper_positions = [(''SYM'', \<lparr>pos_side = Sell, pos_size = 10, pos_entry = 5\<rparr>)],
         log_lines = [], orders = []\<rparr>))
   \<and> distinct (map fst [(''BTCUSDT'', \<lparr>tgt_side = Buy, tgt_value = 1000\<rparr>)])
   \<and> paper_pnl (execute_paper_trade (\<lambda>s. if s = ''SYM'' then 6 else 50000)
        [(''BTCUSDT'', \<lparr>tgt_side = Buy, tgt_value = 1000\<rparr>)]
        \<lparr>paper_pnl = 0,
          paper_positions = [(''SYM'', \<lparr>pos_side = Sell, pos_size = 10, pos_entry = 5\<rparr>)],
          log_lines = [], orders = []\<rparr>) = - 10
   \<and> map_of (paper_positions (execute_paper_trade (\<lambda>s. if s = ''SYM'' then 6 else 50000)
        [(''BTCUSDT'', \<lparr>tgt_side = Buy, tgt_value = 1000\<rparr>)]
        \<lparr>paper_pnl = 0,
          paper_positions = [(''SYM'', \<lparr>pos_side = Sell, pos_size = 10, pos_entry = 5\<rparr>)],
          log_lines = [], orders = []\<rparr>)) ''SYM'' = None"
  using C5_realized_pnl[of
      "\<lparr>paper_pnl = 0,
        paper_positions = [(''SYM'', \<lparr>pos_side = Sell, pos_size = 10, pos_entry = 5\<rparr>)],
        log_lines = [], orders = []\<rparr>"
      "[(''BTCUSDT'', \<lparr>tgt_side = Buy, tgt_value = 1000\<rparr>)]"
      "\<lambda>s. if s = ''SYM'' then 6 else 50000"]
  by (simp add: realized_pnl_def)

text \<open>
  Claim C6: reconciliation is idempotent. When every targeted symbol has a positive
  price, a second pass with the same targets and prices leaves the open positions and the
  realized PnL of the first pass unchanged, and logs one HOLD per targeted symbol, for the
  position the first pass left, and nothing else.
\<close>

theorem C6_idempotent:
  assumes dT: "distinct (map fst targets)"
    and avail: "\<forall>symbol \<in> set (map fst targets). price symbol > 0"
  shows "let b1 = execute_paper_trade price targets b;
             b2 = execute_paper_trade price targets b1
         in paper_positions b2 = paper_positions b1 \<and> paper_pnl b2 = paper_pnl b1
            \<and> (\<exists>holds. log_lines b2 = log_lines b1 @ holds
                 \<and> list_all2 (\<lambda>(symbol, target) line.
                      \<exists>pos. map_of (paper_positions b1) symbol = Some pos
                        \<and> line = HOLD (tgt_side target) symbol (pos_size pos) (pos_entry pos))
                      targets holds)"
proof -
  let ?b1 = "execute_paper_trade price targets b"
  have "set (map fst (paper_positions ?b1)) \<subseteq> set (map fst targets)"
  proof
    fix s assume "s \<in> set (map fst (paper_positions ?b1))"
    then have "map_of (paper_positions ?b1) s \<noteq> None"
      by (simp add: map_of_eq_None_iff)
    then show "s \<in> set (map fst targets)"
      using paper_lookup_untargeted[of s targets price b] by (cases "s \<in> set (map fst targets)") simp_all
  qed
  then have closes: "foldl (close_symbol targets price) ?b1 (map fst (paper_positions ?b1)) = ?b1"
    by (rule close_loop_targeted)
  have "\<forall>(s, t) \<in> set targets. price s > 0 \<and>
          (\<exists>pos. map_of (paper_positions ?b1) s = Some pos \<and> pos_side pos = tgt_side t)"
  proof (intro ballI, unfold split_paired_all prod.case, intro conjI)
    fix s t assume st: "(s, t) \<in> set targets"
    then show "price s > 0" using avail by force
    then show "\<exists>pos. map_of (paper_positions ?b1) s = Some pos \<and> pos_side pos = tgt_side t"
      by (simp only: paper_lookup_targeted[OF dT st] open_result_side)
  qed
  from open_loop_all_hold[OF this] obtain holds where
    "foldl (open_symbol price) ?b1 targets = ?b1\<lparr>log_lines := log_lines ?b1 @ holds\<rparr>"
    and "list_all2 (\<lambda>(s, t) line. \<exists>pos. map_of (paper_positions ?b1) s = Some pos
                          \<and> line = HOLD (tgt_side t) s (pos_size pos) (pos_entry pos)) targets holds"
    by blast
  moreover have "execute_paper_trade price targets ?b1 = foldl (open_symbol price) ?b1 targets"
    by (simp only: execute_paper_trade_def[of price targets ?b1] Let_def closes)
  ultimately show ?thesis
    unfolding Let_def by (intro conjI exI[of _ holds]) simp_all
qed

theorem C6_idempotent_witness:
  "distinct (map fst [(''BTCUSDT'', \<lparr>tgt_side = Buy, tgt_value = 1000\<rparr>),
                      (''XUSDT'', \<lparr>tgt_side = Sell, tgt_value = 500\<rparr>)])
   \<and> (\<lambda>s. if s = ''BTCUSDT'' then 50000 else (4::real)) ''BTCUSDT'' > 0
   \<and> (\<lambda>s. if s = ''BTCUSDT'' then 50000 else (4::real)) ''XUSDT'' > 0
   \<and> (let b1 = execute_paper_trade (\<lambda>s. if s = ''BTCUSDT'' then 50000 else 4)
                  [(''BTCUSDT'', \<lparr>tgt_side = Buy, tgt_value = 1000\<rparr>),
                   (''XUSDT'', \<lparr>tgt_side = Sell, tgt_value = 500\<rparr>)]
                  \<lparr>paper_pnl = 0,
                    paper_positions = [(''XUSDT'', \<lparr>pos_side = Buy, pos_size = 10, pos_entry = 5\<rparr>)],
                    log_lines = [], orders = []\<rparr>;
            b2 = execute_paper_trade (\<lambda>s. if s = ''BTCUSDT'' then 50000 else 4)
                  [(''BTCUSDT'', \<lparr>tgt_side = Buy, tgt_value = 1000\<rparr>),
                   (''XUSDT'', \<lparr>tgt_side = Sell, tgt_value = 500\<rparr>)] b1
        in paper_positions b2 = paper_positions b1 \<and> paper_pnl b2 = paper_pnl b1
           \<and> (\<exists>holds. log_lines b2 = log_lines b1 @ holds
                 \<and> list_all2 (\<lambda>(symbol, target) line.
                      \<exists>pos. map_of (paper_positions b1) symbol = Some pos
                        \<and> line = HOLD (tgt_side target) symbol (pos_size pos) (pos_entry pos))
                      [(''BTCUSDT'', \<lparr>tgt_side = Buy, tgt_value = 1000\<rparr>),
                       (''XUSDT'', \<lparr>tgt_side = Sell, tgt_value = 500\<rparr>)] holds))"
  using C6_idempotent[of
      "[(''BTCUSDT'', \<lparr>tgt_side = Buy, tgt_value = 1000\<rparr>),
        (''XUSDT'', \<lparr>tgt_side = Sell, tgt_value = 500\<rparr>)]"
      "\<lambda>s. if s = ''BTCUSDT'' then 50000 else 4"
      "\<lparr>paper_pnl = 0,
        paper_positions = [(''XUSDT'', \<lparr>pos_side = Buy, pos_size = 10, pos_entry = 5\<rparr>)],
        log_lines = [], orders = []\<rparr>"]
  by simp

section \<open>The ranking loop, the sort and the slice\<close>

lemma volatilities_loop_entry:
  "(s, v) \<in> set (volatilities_loop L K syms) \<Longrightarrow>
   s \<in> set syms \<and> s \<noteq> ''BTCUSDT'' \<and> K s \<noteq> [] \<and> v = calculate_volatility L (K s) \<and> v > 0"
  by (induction syms) (auto simp: Let_def split: if_splits)

lemma volatilities_loop_keys:
  "set (map fst (volatilities_loop L K syms)) \<subseteq> set syms - {''BTCUSDT''}"
  using volatilities_loop_entry[of _ _ L K syms] by auto

lemma volatilities_loop_distinct:
  "distinct syms \<Longrightarrow> distinct (map fst (volatilities_loop L K syms))"
proof (induction syms)
  case Nil
  then show ?case by simp
next
  case (Cons s syms)
  from volatilities_loop_keys[of L K syms] Cons.prems
  have "s \<notin> set (map fst (volatilities_loop L K syms))" by auto
  with Cons show ?case by (simp add: Let_def)
qed

lemma volatilities_loop_cong:
  "(\<And>s. s \<in> set syms \<Longrightarrow> K' s = K s) \<Longrightarrow>
   volatilities_loop L K' syms = volatilities_loop L K syms"
  by (induction syms) (simp_all add: Let_def)

lemma set_sort_reverse: "set (sort_reverse key xs) = set xs"
  by (simp add: sort_reverse_def)

lemma length_sort_reverse: "length (sort_reverse key xs) = length xs"
  by (simp add: sort_reverse_def)

lemma sort_reverse_descending:
  "sorted_wrt (\<lambda>a b. key a \<ge> key b) (sort_reverse key xs)"
proof -
  have "sorted (map key (sort_key key (rev xs)))" by simp
  then have "sorted_wrt (\<lambda>a b. key a \<le> key b) (sort_key key (rev xs))"
    by (simp add: sorted_wrt_map)
  then show ?thesis
    by (simp add: sort_reverse_def sorted_wrt_rev)
qed

lemma sort_reverse_stable:
  "filter (\<lambda>x. key x = k) (sort_reverse key xs) = filter (\<lambda>x. key x = k) xs"
  by (simp add: sort_reverse_def rev_filter[symmetric] sort_key_stable)

lemma slice_to_prefix: "prefix (slice_to n xs) xs"
  by (simp add: slice_to_def take_is_prefix)

lemma prefix_filter: "prefix xs ys \<Longrightarrow> prefix (filter P xs) (filter P ys)"
  by (auto simp: prefix_def)

lemma sorted_wrt_prefix: "prefix xs ys \<Longrightarrow> sorted_wrt R ys \<Longrightarrow> sorted_wrt R xs"
  by (auto simp: prefix_def sorted_wrt_append)

lemma distinct_sort_reverse:
  "distinct (map fst (sort_reverse key xs)) = distinct (map fst xs)"
  by (simp add: sort_reverse_def distinct_map rev_map[symmetric])

lemma slice_to_take: "0 \<le> n \<Longrightarrow> slice_to n xs = take (nat n) xs"
  by (simp add: slice_to_def)

lemma ranked_wellformed:
  "''BTCUSDT'' \<notin> set (map fst (sorted_volatilities cfg gw))
   \<and> (distinct (get_usdt_perp_symbols gw) \<longrightarrow> distinct (map fst (sorted_volatilities cfg gw)))"
  using volatilities_loop_keys[of "LOOKBACK cfg" "get_klines gw" "get_usdt_perp_symbols gw"]
  by (auto simp: sorted_volatilities_def set_sort_reverse distinct_sort_reverse
        volatilities_loop_distinct)

text \<open>
  A run of the ranker on three alts and the reference asset, with a window of two
  returns: \<open>B\<close> is the most volatile, \<open>A\<close> and \<open>C\<close> tie and keep the order of the listing.
\<close>

lemma volatility_example_1: "calculate_volatility 2 [1, exp 1, 1] = sqrt 2"
  by (simp add: calculate_volatility_def log_return_def np_log_ratio_def series_tail_def
        series_std_def ln_div)

lemma volatility_example_2: "calculate_volatility 2 [1, exp 2, 1] = sqrt 8"
  by (simp add: calculate_volatility_def log_return_def np_log_ratio_def series_tail_def
        series_std_def ln_div)

lemma ranking_example:
  "get_top_volatile_alts \<lparr>CAPITAL = 1000, N_SHORTS = 3, LOOKBACK = 2, PAPER_TRADE = True\<rparr>
        \<lparr>get_usdt_perp_symbols = [''A'', ''BTCUSDT'', ''B'', ''C''],
          get_klines = (\<lambda>s. if s = ''B'' then [1, exp 2, 1] else [1, exp 1, 1]),
          get_current_price = (\<lambda>s. 0), get_positions = None, set_leverage = (\<lambda>s. True),
          lot_size_filter = (\<lambda>s. None)\<rparr>
   = [(''B'', sqrt 8), (''A'', sqrt 2), (''C'', sqrt 2)]"
  by (simp add: get_top_volatile_alts_def sorted_volatilities_def volatility_example_1
        volatility_example_2 sort_reverse_def slice_to_def Let_def)

section \<open>The loop of \<open>calculate_target_positions\<close>\<close>

lemma update_fresh: "k \<notin> fst ` set al \<Longrightarrow> AList.update k v al = al @ [(k, v)]"
  by (induction al) auto

lemma targets_loop_fresh:
  "distinct (map fst tops) \<Longrightarrow> fst ` set tops \<inter> fst ` set init = {} \<Longrightarrow>
   foldl (\<lambda>targets (symbol, vol). AList.update symbol x targets) init tops =
     init @ map (\<lambda>(symbol, vol). (symbol, x)) tops"
proof (induction tops arbitrary: init)
  case Nil
  then show ?case by simp
next
  case (Cons e tops)
  obtain s v where e: "e = (s, v)" by (cases e)
  from Cons.prems e have fresh: "s \<notin> fst ` set init" by auto
  from Cons.prems e have "fst ` set tops \<inter> fst ` set (init @ [(s, x)]) = {}"
    by (auto simp: image_iff)
  moreover from Cons.prems have "distinct (map fst tops)" by simp
  ultimately have "foldl (\<lambda>targets (symbol, vol). AList.update symbol x targets) (init @ [(s, x)]) tops =
      (init @ [(s, x)]) @ map (\<lambda>(symbol, vol). (symbol, x)) tops"
    by (rule Cons.IH[rotated])
  then show ?case
    by (simp add: e update_fresh[OF fresh])
qed

lemma targets_loop_lookup:
  "map_of (foldl (\<lambda>targets (symbol, vol). AList.update symbol x targets) init tops) k =
     (if k \<in> fst ` set tops then Some x else map_of init k)"
  by (induction tops arbitrary: init) (auto simp: AList.update_conv' case_prod_beta)

lemma targets_loop_distinct:
  "distinct (map fst init) \<Longrightarrow>
   distinct (map fst (foldl (\<lambda>targets (symbol, vol). AList.update symbol x targets) init tops))"
  by (induction tops arbitrary: init) (auto simp: AList.distinct_update case_prod_beta)

section \<open>The arithmetic of \<open>get_next_rebalance_time\<close>\<close>

lemma next_boundary:
  assumes v: "valid_datetime now" and d: "dt_day now < 3652059"
  shows "\<exists>nxt. get_next_rebalance_time now = Inr nxt
           \<and> microseconds nxt = (dt_day now * 6 + int (dt_hour now div 4) + 1) * four_hours
           \<and> dt_hour nxt \<in> {0, 4, 8, 12, 16, 20}
           \<and> dt_minute nxt = 0 \<and> dt_second nxt = 0 \<and> dt_microsecond nxt = 0
           \<and> valid_datetime nxt"
proof -
  from v have h: "dt_hour now < 24" by (simp add: valid_datetime_def)
  then have q: "dt_hour now div 4 \<in> {0, 1, 2, 3, 4, 5}" by auto
  show ?thesis
  proof (cases "dt_hour now div 4 = 5")
    case True
    with v d show ?thesis
      by (simp add: get_next_rebalance_time_def microseconds_def four_hours_def valid_datetime_def)
  next
    case False
    with q have "dt_hour now div 4 \<in> {0, 1, 2, 3, 4}" by auto
    with v d show ?thesis
      by (auto simp: get_next_rebalance_time_def microseconds_def four_hours_def valid_datetime_def)
  qed
qed

lemma now_bounds:
  assumes v: "valid_datetime now"
  shows "(dt_day now * 6 + int (dt_hour now div 4)) * four_hours \<le> microseconds now"
    and "microseconds now < (dt_day now * 6 + int (dt_hour now div 4) + 1) * four_hours"
proof -
  define q where "q = int (dt_hour now div 4)"
  define r where "r = int (dt_hour now mod 4)"
  have h: "int (dt_hour now) = 4 * q + r" and r: "0 \<le> r" "r < 4"
    by (simp_all add: q_def r_def zdiv_int zmod_int)
  from v have b: "int (dt_minute now) < 60" "int (dt_second now) < 60"
      "int (dt_microsecond now) < 1000000"
    by (simp_all add: valid_datetime_def)
  have m: "microseconds now =
        (dt_day now * 6 + q) * four_hours + r * 3600000000 + int (dt_minute now) * 60000000
        + int (dt_second now) * 1000000 + int (dt_microsecond now)"
    by (simp add: microseconds_def four_hours_def h algebra_simps)
  show "(dt_day now * 6 + int (dt_hour now div 4)) * four_hours \<le> microseconds now"
    unfolding m q_def[symmetric] using r by simp
  show "microseconds now < (dt_day now * 6 + int (dt_hour now div 4) + 1) * four_hours"
    unfolding m q_def[symmetric] using r b by (simp add: four_hours_def algebra_simps)
qed

section \<open>Properties of ranking, allocation and scheduling\<close>

text \<open>
  Claim C3: for a ranked sequence with at least \<open>N_SHORTS\<close> entries (\<open>N_SHORTS\<close> positive,
  the symbols pairwise distinct and none of them the reference asset, as the ranker
  produces them, see \<open>ranked_wellformed\<close>), the slice \<open>[:N_SHORTS]\<close> of the ranker followed
  by \<open>calculate_target_positions\<close> returns the reference asset long with notional
  \<open>CAPITAL\<close>, then the first \<open>N_SHORTS\<close> entries short with notional \<open>CAPITAL / N_SHORTS\<close>
  each: exactly one long entry and exactly \<open>N_SHORTS\<close> short entries.
\<close>

theorem C3_targets:
  assumes pos: "0 < N_SHORTS cfg" and enough: "N_SHORTS cfg \<le> int (length ranked)"
    and d: "distinct (map fst ranked)" and alt: "''BTCUSDT'' \<notin> set (map fst ranked)"
  shows "\<exists>targets. calculate_target_positions cfg (slice_to (N_SHORTS cfg) ranked) = Inr targets
         \<and> targets = (''BTCUSDT'', \<lparr>tgt_side = Buy, tgt_value = CAPITAL cfg\<rparr>)
                      # map (\<lambda>(symbol, vol).
                               (symbol, \<lparr>tgt_side = Sell,
                                         tgt_value = CAPITAL cfg / real_of_int (N_SHORTS cfg)\<rparr>))
                          (take (nat (N_SHORTS cfg)) ranked)
         \<and> distinct (map fst targets)
         \<and> filter (\<lambda>(symbol, t). tgt_side t = Buy) targets
             = [(''BTCUSDT'', \<lparr>tgt_side = Buy, tgt_value = CAPITAL cfg\<rparr>)]
         \<and> length (filter (\<lambda>(symbol, t). tgt_side t = Sell) targets) = nat (N_SHORTS cfg)"
proof -
  let ?tops = "take (nat (N_SHORTS cfg)) ranked"
  let ?x = "\<lparr>tgt_side = Sell, tgt_value = CAPITAL cfg / real_of_int (N_SHORTS cfg)\<rparr>"
  let ?init = "[(''BTCUSDT'', \<lparr>tgt_side = Buy, tgt_value = CAPITAL cfg\<rparr>)]"
  let ?shorts = "map (\<lambda>(symbol, vol). (symbol, ?x)) ?tops"
  have dtop: "distinct (map fst ?tops)"
    using d by (simp add: take_map[symmetric])
  have keys: "set (map fst ?tops) \<subseteq> set (map fst ranked)"
    by (metis set_take_subset take_map)
  with alt have "fst ` set ?tops \<inter> fst ` set ?init = {}" by auto
  from targets_loop_fresh[OF dtop this, of ?x]
  have run: "calculate_target_positions cfg (slice_to (N_SHORTS cfg) ranked) = Inr (?init @ ?shorts)"
    using pos by (simp add: calculate_target_positions_def slice_to_take Let_def)
  have fsts: "map fst ?shorts = map fst ?tops"
    by (simp add: case_prod_beta)
  have "distinct (map fst (?init @ ?shorts))"
    using dtop keys alt by (simp add: fsts del: map_map) blast
  moreover have "filter (\<lambda>(symbol, t). tgt_side t = Buy) ?shorts = []"
    by (simp add: filter_empty_conv case_prod_beta)
  moreover have "filter (\<lambda>(symbol, t). tgt_side t = Sell) ?shorts = ?shorts"
    by (simp add: filter_id_conv case_prod_beta)
  moreover have "length ?shorts = nat (N_SHORTS cfg)"
    using enough pos by simp
  ultimately show ?thesis
    using run by simp
qed

theorem C3_targets_witness:
  "0 < N_SHORTS \<lparr>CAPITAL = 1000, N_SHORTS = 2, LOOKBACK = 30, PAPER_TRADE = True\<rparr>
   \<and> N_SHORTS \<lparr>CAPITAL = 1000, N_SHORTS = 2, LOOKBACK = 30, PAPER_TRADE = True\<rparr>
       \<le> int (length [(''X'', 1/2), (''Y'', 2/5), (''Z'', 3/10 :: real)])
   \<and> distinct (map fst [(''X'', 1/2), (''Y'', 2/5), (''Z'', 3/10 :: real)])
   \<and> ''BTCUSDT'' \<notin> set (map fst [(''X'', 1/2), (''Y'', 2/5), (''Z'', 3/10 :: real)])
   \<and> calculate_target_positions \<lparr>CAPITAL = 1000, N_SHORTS = 2, LOOKBACK = 30, PAPER_TRADE = True\<rparr>
         (slice_to 2 [(''X'', 1/2), (''Y'', 2/5), (''Z'', 3/10)])
       = Inr [(''BTCUSDT'', \<lparr>tgt_side = Buy, tgt_value = 1000\<rparr>),
              (''X'', \<lparr>tgt_side = Sell, tgt_value = 500\<rparr>),
              (''Y'', \<lparr>tgt_side = Sell, tgt_value = 500\<rparr>)]"
  using C3_targets[of "\<lparr>CAPITAL = 1000, N_SHORTS = 2, LOOKBACK = 30, PAPER_TRADE = True\<rparr>"
      "[(''X'', 1/2), (''Y'', 2/5), (''Z'', 3/10)]"]
  by (simp add: numeral_2_eq_2)

text \<open>
  Claim C4: when the ranked sequence has fewer than \<open>N_SHORTS\<close> entries, \<open>run_once\<close> logs
  the warning that only so many alts were found and returns: no targets are computed, no
  pass is run, and open positions, realized PnL and orders are as before.
\<close>

theorem C4_insufficient_universe:
  assumes "int (length (sorted_volatilities cfg gw)) < N_SHORTS cfg"
  shows "run_once cfg gw b =
           Inr (b\<lparr>log_lines := log_lines b
                    @ [WARN_only_found (length (sorted_volatilities cfg gw)) (N_SHORTS cfg)]\<rparr>)"
proof -
  from assms have "slice_to (N_SHORTS cfg) (sorted_volatilities cfg gw) = sorted_volatilities cfg gw"
    by (simp add: slice_to_def)
  with assms show ?thesis
    by (simp add: run_once_def get_top_volatile_alts_def)
qed

theorem C4_insufficient_universe_witness:
  "int (length (sorted_volatilities
         \<lparr>CAPITAL = 1000, N_SHORTS = 2, LOOKBACK = 30, PAPER_TRADE = True\<rparr>
         \<lparr>get_usdt_perp_symbols = [''BTCUSDT'', ''SYM''], get_klines = (\<lambda>s. [100, 101]),
           get_current_price = (\<lambda>s. 6), get_positions = None, set_leverage = (\<lambda>s. True),
           lot_size_filter = (\<lambda>s. None)\<rparr>))
     < N_SHORTS \<lparr>CAPITAL = 1000, N_SHORTS = 2, LOOKBACK = 30, PAPER_TRADE = True\<rparr>
   \<and> run_once \<lparr>CAPITAL = 1000, N_SHORTS = 2, LOOKBACK = 30, PAPER_TRADE = True\<rparr>
         \<lparr>get_usdt_perp_symbols = [''BTCUSDT'', ''SYM''], get_klines = (\<lambda>s. [100, 101]),
           get_current_price = (\<lambda>s. 6), get_positions = None, set_leverage = (\<lambda>s. True),
           lot_size_filter = (\<lambda>s. None)\<rparr>
         \<lparr>paper_pnl = 0,
           paper_positions = [(''SYM'', \<lparr>pos_side = Sell, pos_size = 10, pos_entry = 5\<rparr>)],
           log_lines = [], orders = []\<rparr>
       = Inr \<lparr>paper_pnl = 0,
           paper_positions = [(''SYM'', \<lparr>pos_side = Sell, pos_size = 10, pos_entry = 5\<rparr>)],
           log_lines = [WARN_only_found 0 2], orders = []\<rparr>"
  using C4_insufficient_universe[of
      "\<lparr>CAPITAL = 1000, N_SHORTS = 2, LOOKBACK = 30, PAPER_TRADE = True\<rparr>"
      "\<lparr>get_usdt_perp_symbols = [''BTCUSDT'', ''SYM''], get_klines = (\<lambda>s. [100, 101]),
        get_current_price = (\<lambda>s. 6), get_positions = None, set_leverage = (\<lambda>s. True),
        lot_size_filter = (\<lambda>s. None)\<rparr>"
      "\<lparr>paper_pnl = 0,
        paper_positions = [(''SYM'', \<lparr>pos_side = Sell, pos_size = 10, pos_entry = 5\<rparr>)],
        log_lines = [], orders = []\<rparr>"]
  by (simp add: sorted_volatilities_def sort_reverse_def calculate_volatility_def)

text \<open>
  Claim C7: a series of fewer than \<open>LOOKBACK\<close> candles yields the volatility 0, the value
  the ranker does not rank (it keeps \<open>vol > 0\<close> only), and its symbol is neither in the
  sorted list nor in the ranker's output.
\<close>

theorem C7_short_series_unrankable:
  assumes "int (length (get_klines gw symbol)) < LOOKBACK cfg"
  shows "calculate_volatility (LOOKBACK cfg) (get_klines gw symbol) = 0
         \<and> symbol \<notin> fst ` set (sorted_volatilities cfg gw)
         \<and> symbol \<notin> fst ` set (get_top_volatile_alts cfg gw)"
proof -
  have zero: "calculate_volatility (LOOKBACK cfg) (get_klines gw symbol) = 0"
    using assms by (simp add: calculate_volatility_def)
  have "symbol \<notin> fst ` set (volatilities_loop (LOOKBACK cfg) (get_klines gw) (get_usdt_perp_symbols gw))"
  proof
    assume "symbol \<in> fst ` set (volatilities_loop (LOOKBACK cfg) (get_klines gw) (get_usdt_perp_symbols gw))"
    then obtain v where "(symbol, v) \<in> set (volatilities_loop (LOOKBACK cfg) (get_klines gw) (get_usdt_perp_symbols gw))"
      by auto
    from volatilities_loop_entry[OF this] zero show False by auto
  qed
  then have ranked: "symbol \<notin> fst ` set (sorted_volatilities cfg gw)"
    by (simp add: sorted_volatilities_def set_sort_reverse)
  moreover have "set (get_top_volatile_alts cfg gw) \<subseteq> set (sorted_volatilities cfg gw)"
    unfolding get_top_volatile_alts_def by (rule set_mono_prefix[OF slice_to_prefix])
  ultimately have "symbol \<notin> fst ` set (get_top_volatile_alts cfg gw)" by blast
  with zero ranked show ?thesis by simp
qed

theorem C7_short_series_unrankable_witness:
  "int (length (get_klines
        \<lparr>get_usdt_perp_symbols = [''SYM''], get_klines = (\<lambda>s. [100, 101]),
          get_current_price = (\<lambda>s. 0), get_positions = None, set_leverage = (\<lambda>s. True),
          lot_size_filter = (\<lambda>s. None)\<rparr> ''SYM''))
     < LOOKBACK \<lparr>CAPITAL = 1000, N_SHORTS = 2, LOOKBACK = 3, PAPER_TRADE = True\<rparr>
   \<and> calculate_volatility 3 [100, 101] = 0
   \<and> ''SYM'' \<notin> fst ` set (get_top_volatile_alts
        \<lparr>CAPITAL = 1000, N_SHORTS = 2, LOOKBACK = 3, PAPER_TRADE = True\<rparr>
        \<lparr>get_usdt_perp_symbols = [''SYM''], get_klines = (\<lambda>s. [100, 101]),
          get_current_price = (\<lambda>s. 0), get_positions = None, set_leverage = (\<lambda>s. True),
          lot_size_filter = (\<lambda>s. None)\<rparr>)"
  using C7_short_series_unrankable[of
      "\<lparr>get_usdt_perp_symbols = [''SYM''], get_klines = (\<lambda>s. [100, 101]),
        get_current_price = (\<lambda>s. 0), get_positions = None, set_leverage = (\<lambda>s. True),
        lot_size_filter = (\<lambda>s. None)\<rparr>" "''SYM''"
      "\<lparr>CAPITAL = 1000, N_SHORTS = 2, LOOKBACK = 3, PAPER_TRADE = True\<rparr>"]
  by simp

text \<open>
  Claim C8: for every valid UTC time before the last day the \<open>datetime\<close> type can hold,
  \<open>get_next_rebalance_time\<close> returns an instant strictly later than now and at most four
  hours later, at hour 0, 4, 8, 12, 16 or 20 with minutes, seconds and microseconds zero;
  it is a multiple of four hours and no multiple of four hours lies strictly between now
  and it, also across midnight.
\<close>

theorem C8_next_rebalance:
  assumes v: "valid_datetime now" and d: "dt_day now < 3652059"
  shows "\<exists>nxt. get_next_rebalance_time now = Inr nxt
           \<and> microseconds now < microseconds nxt
           \<and> microseconds nxt \<le> microseconds now + four_hours
           \<and> dt_hour nxt \<in> {0, 4, 8, 12, 16, 20}
           \<and> dt_minute nxt = 0 \<and> dt_second nxt = 0 \<and> dt_microsecond nxt = 0
           \<and> valid_datetime nxt
           \<and> four_hours dvd microseconds nxt
           \<and> (\<forall>m. microseconds now < m * four_hours \<longrightarrow> microseconds nxt \<le> m * four_hours)"
proof -
  let ?k = "dt_day now * 6 + int (dt_hour now div 4)"
  from next_boundary[OF v d] obtain nxt where
    run: "get_next_rebalance_time now = Inr nxt"
    and at: "microseconds nxt = (?k + 1) * four_hours"
    and shape: "dt_hour nxt \<in> {0, 4, 8, 12, 16, 20}" "dt_minute nxt = 0" "dt_second nxt = 0"
      "dt_microsecond nxt = 0" "valid_datetime nxt"
    by blast
  note lo = now_bounds(1)[OF v] and hi = now_bounds(2)[OF v]
  have fh: "0 < four_hours" by (simp add: four_hours_def)
  have later: "microseconds now < microseconds nxt" using hi at by simp
  have within: "microseconds nxt \<le> microseconds now + four_hours"
    using lo at by (simp add: algebra_simps)
  have earliest: "microseconds nxt \<le> m * four_hours" if "microseconds now < m * four_hours" for m
  proof -
    from that lo have "?k * four_hours < m * four_hours" by simp
    with fh have "?k < m" by (simp add: mult_less_cancel_right)
    then have "?k + 1 \<le> m" by simp
    with fh have "(?k + 1) * four_hours \<le> m * four_hours"
      by (simp only: mult_right_mono less_imp_le)
    with at show ?thesis by simp
  qed
  from run later within shape at earliest show ?thesis
    by (intro exI[of _ nxt]) simp
qed

theorem C8_next_rebalance_witness:
  "valid_datetime \<lparr>dt_day = 740000, dt_hour = 23, dt_minute = 30, dt_second = 15, dt_microsecond = 5\<rparr>
   \<and> dt_day \<lparr>dt_day = 740000, dt_hour = 23, dt_minute = 30, dt_second = 15, dt_microsecond = 5\<rparr> < 3652059
   \<and> (\<exists>nxt. get_next_rebalance_time \<lparr>dt_day = 740000, dt_hour = 23, dt_minute = 30, dt_second = 15, dt_microsecond = 5\<rparr> = Inr nxt
         \<and> nxt = \<lparr>dt_day = 740001, dt_hour = 0, dt_minute = 0, dt_second = 0, dt_microsecond = 0\<rparr>
         \<and> microseconds \<lparr>dt_day = 740000, dt_hour = 23, dt_minute = 30, dt_second = 15, dt_microsecond = 5\<rparr> < microseconds nxt
         \<and> microseconds nxt \<le> microseconds \<lparr>dt_day = 740000, dt_hour = 23, dt_minute = 30, dt_second = 15, dt_microsecond = 5\<rparr> + four_hours)"
  using C8_next_rebalance[of \<open>\<lparr>dt_day = 740000, dt_hour = 23, dt_minute = 30, dt_second = 15, dt_microsecond = 5\<rparr>\<close>]
  by (auto simp: valid_datetime_def get_next_rebalance_time_def)

text \<open>
  Claim C9: the ranker's output is sorted by volatility in descending order; the entries
  of any one volatility appear in the order of their insertion (they are a prefix of the
  entries of that volatility in \<open>volatilities\<close>); and the output depends on the listing
  and on the candles of the listed symbols only, so two runs over the same fetch results
  agree.
\<close>

theorem C9_ranking_order:
  "sorted_wrt (\<lambda>a b. snd a \<ge> snd b) (get_top_volatile_alts cfg gw)
   \<and> (\<forall>v. prefix (filter (\<lambda>x. snd x = v) (get_top_volatile_alts cfg gw))
              (filter (\<lambda>x. snd x = v)
                 (volatilities_loop (LOOKBACK cfg) (get_klines gw) (get_usdt_perp_symbols gw))))
   \<and> (get_usdt_perp_symbols gw' = get_usdt_perp_symbols gw
        \<and> (\<forall>symbol \<in> set (get_usdt_perp_symbols gw). get_klines gw' symbol = get_klines gw symbol)
        \<longrightarrow> get_top_volatile_alts cfg gw' = get_top_volatile_alts cfg gw)"
proof (intro conjI allI impI)
  have pre: "prefix (get_top_volatile_alts cfg gw) (sorted_volatilities cfg gw)"
    unfolding get_top_volatile_alts_def by (rule slice_to_prefix)
  have "sorted_wrt (\<lambda>a b. snd a \<ge> snd b) (sorted_volatilities cfg gw)"
    unfolding sorted_volatilities_def by (rule sort_reverse_descending)
  with pre show "sorted_wrt (\<lambda>a b. snd a \<ge> snd b) (get_top_volatile_alts cfg gw)"
    by (rule sorted_wrt_prefix)
  fix v
  from pre have "prefix (filter (\<lambda>x. snd x = v) (get_top_volatile_alts cfg gw))
                   (filter (\<lambda>x. snd x = v) (sorted_volatilities cfg gw))"
    by (rule prefix_filter)
  then show "prefix (filter (\<lambda>x. snd x = v) (get_top_volatile_alts cfg gw))
              (filter (\<lambda>x. snd x = v)
                 (volatilities_loop (LOOKBACK cfg) (get_klines gw) (get_usdt_perp_symbols gw)))"
    by (simp add: sorted_volatilities_def sort_reverse_stable)
next
  assume same: "get_usdt_perp_symbols gw' = get_usdt_perp_symbols gw
        \<and> (\<forall>symbol \<in> set (get_usdt_perp_symbols gw). get_klines gw' symbol = get_klines gw symbol)"
  then have "volatilities_loop (LOOKBACK cfg) (get_klines gw') (get_usdt_perp_symbols gw) =
             volatilities_loop (LOOKBACK cfg) (get_klines gw) (get_usdt_perp_symbols gw)"
    by (intro volatilities_loop_cong) simp
  with same show "get_top_volatile_alts cfg gw' = get_top_volatile_alts cfg gw"
    by (simp add: get_top_volatile_alts_def sorted_volatilities_def)
qed

theorem C9_ranking_order_witness:
  "get_usdt_perp_symbols
        \<lparr>get_usdt_perp_symbols = [''A'', ''BTCUSDT'', ''B'', ''C''],
          get_klines = (\<lambda>s. if s = ''B'' then [1, exp 2, 1] else [1, exp 1, 1]),
          get_current_price = (\<lambda>s. 7), get_positions = None, set_leverage = (\<lambda>s. True),
          lot_size_filter = (\<lambda>s. None)\<rparr>
     = get_usdt_perp_symbols
        \<lparr>get_usdt_perp_symbols = [''A'', ''BTCUSDT'', ''B'', ''C''],
          get_klines = (\<lambda>s. if s = ''B'' then [1, exp 2, 1] else [1, exp 1, 1]),
          get_current_price = (\<lambda>s. 0), get_positions = None, set_leverage = (\<lambda>s. True),
          lot_size_filter = (\<lambda>s. None)\<rparr>
   \<and> get_klines
        \<lparr>get_usdt_perp_symbols = [''A'', ''BTCUSDT'', ''B'', ''C''],
          get_klines = (\<lambda>s. if s = ''B'' then [1, exp 2, 1] else [1, exp 1, 1]),
          get_current_price = (\<lambda>s. 7), get_positions = None, set_leverage = (\<lambda>s. True),
          lot_size_filter = (\<lambda>s. None)\<rparr> ''A''
       = get_klines
        \<lparr>get_usdt_perp_symbols = [''A'', ''BTCUSDT'', ''B'', ''C''],
          get_klines = (\<lambda>s. if s = ''B'' then [1, exp 2, 1] else [1, exp 1, 1]),
          get_current_price = (\<lambda>s. 0), get_positions = None, set_leverage = (\<lambda>s. True),
          lot_size_filter = (\<lambda>s. None)\<rparr> ''A''
   \<and> get_klines
        \<lparr>get_usdt_perp_symbols = [''A'', ''BTCUSDT'', ''B'', ''C''],
          get_klines = (\<lambda>s. if s = ''B'' then [1, exp 2, 1] else [1, exp 1, 1]),
          get_current_price = (\<lambda>s. 7), get_positions = None, set_leverage = (\<lambda>s. True),
          lot_size_filter = (\<lambda>s. None)\<rparr> ''BTCUSDT''
       = get_klines
        \<lparr>get_usdt_perp_symbols = [''A'', ''BTCUSDT'', ''B'', ''C''],
          get_klines = (\<lambda>s. if s = ''B'' then [1, exp 2, 1] else [1, exp 1, 1]),
          get_current_price = (\<lambda>s. 0), get_positions = None, set_leverage = (\<lambda>s. True),
          lot_size_filter = (\<lambda>s. None)\<rparr> ''BTCUSDT''
   \<and> get_klines
        \<lparr>get_usdt_perp_symbols = [''A'', ''BTCUSDT'', ''B'', ''C''],
          get_klines = (\<lambda>s. if s = ''B'' then [1, exp 2, 1] else [1, exp 1, 1]),
          get_current_price = (\<lambda>s. 7), get_positions = None, set_leverage = (\<lambda>s. True),
          lot_size_filter = (\<lambda>s. None)\<rparr> ''B''
       = get_klines
        \<lparr>get_usdt_perp_symbols = [''A'', ''BTCUSDT'', ''B'', ''C''],
          get_klines = (\<lambda>s. if s = ''B'' then [1, exp 2, 1] else [1, exp 1, 1]),
          get_current_price = (\<lambda>s. 0), get_positions = None, set_leverage = (\<lambda>s. True),
          lot_size_filter = (\<lambda>s. None)\<rparr> ''B''
   \<and> get_klines
        \<lparr>get_usdt_perp_symbols = [''A'', ''BTCUSDT'', ''B'', ''C''],
          get_klines = (\<lambda>s. if s = ''B'' then [1, exp 2, 1] else [1, exp 1, 1]),
          get_current_price = (\<lambda>s. 7), get_positions = None, set_leverage = (\<lambda>s. True),
          lot_size_filter = (\<lambda>s. None)\<rparr> ''C''
       = get_klines
        \<lparr>get_usdt_perp_symbols = [''A'', ''BTCUSDT'', ''B'', ''C''],
          get_klines = (\<lambda>s. if s = ''B'' then [1, exp 2, 1] else [1, exp 1, 1]),
          get_current_price = (\<lambda>s. 0), get_positions = None, set_leverage = (\<lambda>s. True),
          lot_size_filter = (\<lambda>s. None)\<rparr> ''C''
   \<and> get_top_volatile_alts \<lparr>CAPITAL = 1000, N_SHORTS = 3, LOOKBACK = 2, PAPER_TRADE = True\<rparr>
        \<lparr>get_usdt_perp_symbols = [''A'', ''BTCUSDT'', ''B'', ''C''],
          get_klines = (\<lambda>s. if s = ''B'' then [1, exp 2, 1] else [1, exp 1, 1]),
          get_current_price = (\<lambda>s. 7), get_positions = None, set_leverage = (\<lambda>s. True),
          lot_size_filter = (\<lambda>s. None)\<rparr>
     = get_top_volatile_alts \<lparr>CAPITAL = 1000, N_SHORTS = 3, LOOKBACK = 2, PAPER_TRADE = True\<rparr>
        \<lparr>get_usdt_perp_symbols = [''A'', ''BTCUSDT'', ''B'', ''C''],
          get_klines = (\<lambda>s. if s = ''B'' then [1, exp 2, 1] else [1, exp 1, 1]),
          get_current_price = (\<lambda>s. 0), get_positions = None, set_leverage = (\<lambda>s. True),
          lot_size_filter = (\<lambda>s. None)\<rparr>
   \<and> sorted_wrt (\<lambda>a b. snd a \<ge> snd b)
        (get_top_volatile_alts \<lparr>CAPITAL = 1000, N_SHORTS = 3, LOOKBACK = 2, PAPER_TRADE = True\<rparr>
        \<lparr>get_usdt_perp_symbols = [''A'', ''BTCUSDT'', ''B'', ''C''],
          get_klines = (\<lambda>s. if s = ''B'' then [1, exp 2, 1] else [1, exp 1, 1]),
          get_current_price = (\<lambda>s. 0), get_positions = None, set_leverage = (\<lambda>s. True),
          lot_size_filter = (\<lambda>s. None)\<rparr>)"
  using C9_ranking_order[of
      \<open>\<lparr>CAPITAL = 1000, N_SHORTS = 3, LOOKBACK = 2, PAPER_TRADE = True\<rparr>\<close>
      \<open>\<lparr>get_usdt_perp_symbols = [''A'', ''BTCUSDT'', ''B'', ''C''],
          get_klines = (\<lambda>s. if s = ''B'' then [1, exp 2, 1] else [1, exp 1, 1]),
          get_current_price = (\<lambda>s. 0), get_positions = None, set_leverage = (\<lambda>s. True),
          lot_size_filter = (\<lambda>s. None)\<rparr>\<close>
      \<open>\<lparr>get_usdt_perp_symbols = [''A'', ''BTCUSDT'', ''B'', ''C''],
          get_klines = (\<lambda>s. if s = ''B'' then [1, exp 2, 1] else [1, exp 1, 1]),
          get_current_price = (\<lambda>s. 7), get_positions = None, set_leverage = (\<lambda>s. True),
          lot_size_filter = (\<lambda>s. None)\<rparr>\<close>]
  by simp

text \<open>
  Claim C10: the ranker never emits \<open>BTCUSDT\<close>; and if the list handed to
  \<open>calculate_target_positions\<close> did contain it (with \<open>N_SHORTS\<close> not 0, so that the
  division succeeds), the short entry would replace the long one under the same key: every
  entry of the result is short, the one of \<open>BTCUSDT\<close> included.
\<close>

theorem C10_reference_excluded:
  "''BTCUSDT'' \<notin> fst ` set (get_top_volatile_alts cfg gw)
   \<and> (N_SHORTS cfg \<noteq> 0 \<and> ''BTCUSDT'' \<in> fst ` set top_volatile \<longrightarrow>
        (\<exists>targets. calculate_target_positions cfg top_volatile = Inr targets
           \<and> (\<forall>(symbol, t) \<in> set targets. tgt_side t = Sell)
           \<and> map_of targets ''BTCUSDT''
               = Some \<lparr>tgt_side = Sell, tgt_value = CAPITAL cfg / real_of_int (N_SHORTS cfg)\<rparr>))"
proof (intro conjI impI)
  have "set (get_top_volatile_alts cfg gw) \<subseteq> set (sorted_volatilities cfg gw)"
    unfolding get_top_volatile_alts_def by (rule set_mono_prefix[OF slice_to_prefix])
  then have "fst ` set (get_top_volatile_alts cfg gw)
        \<subseteq> set (map fst (volatilities_loop (LOOKBACK cfg) (get_klines gw) (get_usdt_perp_symbols gw)))"
    by (auto simp: sorted_volatilities_def set_sort_reverse)
  with volatilities_loop_keys show "''BTCUSDT'' \<notin> fst ` set (get_top_volatile_alts cfg gw)"
    by blast
next
  assume a: "N_SHORTS cfg \<noteq> 0 \<and> ''BTCUSDT'' \<in> fst ` set top_volatile"
  let ?x = "\<lparr>tgt_side = Sell, tgt_value = CAPITAL cfg / real_of_int (N_SHORTS cfg)\<rparr>"
  let ?init = "[(''BTCUSDT'', \<lparr>tgt_side = Buy, tgt_value = CAPITAL cfg\<rparr>)]"
  let ?targets = "foldl (\<lambda>targets (symbol, vol). AList.update symbol ?x targets) ?init top_volatile"
  have run: "calculate_target_positions cfg top_volatile = Inr ?targets"
    using a by (simp add: calculate_target_positions_def Let_def)
  have dist: "distinct (map fst ?targets)"
    by (rule targets_loop_distinct) simp
  have sides: "\<forall>(symbol, t) \<in> set ?targets. tgt_side t = Sell"
  proof (intro ballI, unfold split_paired_all prod.case)
    fix k t assume "(k, t) \<in> set ?targets"
    with dist have "map_of ?targets k = Some t" by simp
    with a show "tgt_side t = Sell"
      by (auto simp: targets_loop_lookup split: if_splits)
  qed
  have t: "map_of ?targets ''BTCUSDT'' = Some ?x"
    using a by (simp add: targets_loop_lookup)
  from t run sides show "\<exists>targets. calculate_target_positions cfg top_volatile = Inr targets
           \<and> (\<forall>(symbol, t) \<in> set targets. tgt_side t = Sell)
           \<and> map_of targets ''BTCUSDT'' = Some ?x"
    by simp
qed

theorem C10_reference_excluded_witness:
  "''BTCUSDT'' \<notin> fst ` set (get_top_volatile_alts
        \<lparr>CAPITAL = 1000, N_SHORTS = 2, LOOKBACK = 30, PAPER_TRADE = True\<rparr>
        \<lparr>get_usdt_perp_symbols = [''BTCUSDT''], get_klines = (\<lambda>s. []),
          get_current_price = (\<lambda>s. 0), get_positions = None, set_leverage = (\<lambda>s. True),
          lot_size_filter = (\<lambda>s. None)\<rparr>)
   \<and> N_SHORTS \<lparr>CAPITAL = 1000, N_SHORTS = 2, LOOKBACK = 30, PAPER_TRADE = True\<rparr> \<noteq> 0
   \<and> ''BTCUSDT'' \<in> fst ` set [(''BTCUSDT'', 1/2), (''Y'', 2/5 :: real)]
   \<and> calculate_target_positions \<lparr>CAPITAL = 1000, N_SHORTS = 2, LOOKBACK = 30, PAPER_TRADE = True\<rparr>
         [(''BTCUSDT'', 1/2), (''Y'', 2/5)]
       = Inr [(''BTCUSDT'', \<lparr>tgt_side = Sell, tgt_value = 500\<rparr>),
              (''Y'', \<lparr>tgt_side = Sell, tgt_value = 500\<rparr>)]"
  using C10_reference_excluded[of
      "\<lparr>CAPITAL = 1000, N_SHORTS = 2, LOOKBACK = 30, PAPER_TRADE = True\<rparr>"
      "\<lparr>get_usdt_perp_symbols = [''BTCUSDT''], get_klines = (\<lambda>s. []),
        get_current_price = (\<lambda>s. 0), get_positions = None, set_leverage = (\<lambda>s. True),
        lot_size_filter = (\<lambda>s. None)\<rparr>"
      "[(''BTCUSDT'', 1/2), (''Y'', 2/5)]"]
  by (simp add: calculate_target_positions_def)

end
